theory Spec2Isabelle
  imports Main "HOL-Library.Sublist" "HOL-Library.AList"
begin

section \<open>RofiManager: settings store and menu workflows\<close>

text \<open>
  A shallow embedding of \<^verbatim>\<open>src/main.go\<close>. Go strings are byte sequences, modelled as
  \<^typ>\<open>string\<close>. The program runs the external selector \<^verbatim>\<open>rofi\<close>, reads and writes
  files, and keeps its settings in a \<^verbatim>\<open>*ini.File\<close>; all of that is made explicit in a
  \<open>world\<close> value threaded through every operation. \<^verbatim>\<open>selectMode\<close>, \<^verbatim>\<open>run\<close> and \<^verbatim>\<open>main\<close>,
  which launch the selector on a mode and dispatch on the top-level menu, are not part of
  the model.
\<close>

subsection \<open>The Go string functions the program calls\<close>

text \<open>
  \<^verbatim>\<open>strings.TrimSpace\<close> removes leading and trailing runes for which
  \<^verbatim>\<open>unicode.IsSpace\<close> holds. On the bytes of a string these are the UTF-8 encodings
  below: the six ASCII ones, U+0085, U+00A0, U+1680, U+2000 to U+200A, U+2028, U+2029,
  U+202F, U+205F and U+3000.
\<close>

definition spaceRunes :: "string list" where
  "spaceRunes =
    [[CHR 0x09], [CHR 0x0A], [CHR 0x0B], [CHR 0x0C], [CHR 0x0D], [CHR 0x20],
     [CHR 0xC2, CHR 0x85], [CHR 0xC2, CHR 0xA0],
     [CHR 0xE1, CHR 0x9A, CHR 0x80],
     [CHR 0xE2, CHR 0x80, CHR 0x80], [CHR 0xE2, CHR 0x80, CHR 0x81],
     [CHR 0xE2, CHR 0x80, CHR 0x82], [CHR 0xE2, CHR 0x80, CHR 0x83],
     [CHR 0xE2, CHR 0x80, CHR 0x84], [CHR 0xE2, CHR 0x80, CHR 0x85],
     [CHR 0xE2, CHR 0x80, CHR 0x86], [CHR 0xE2, CHR 0x80, CHR 0x87],
     [CHR 0xE2, CHR 0x80, CHR 0x88], [CHR 0xE2, CHR 0x80, CHR 0x89],
     [CHR 0xE2, CHR 0x80, CHR 0x8A],
     [CHR 0xE2, CHR 0x80, CHR 0xA8], [CHR 0xE2, CHR 0x80, CHR 0xA9],
     [CHR 0xE2, CHR 0x80, CHR 0xAF], [CHR 0xE2, CHR 0x81, CHR 0x9F],
     [CHR 0xE3, CHR 0x80, CHR 0x80]]"

text \<open>Strip, from the front, every word of \<open>ws\<close> that the string starts with.\<close>

fun trimLeftBy :: "string list \<Rightarrow> string \<Rightarrow> string" where
  "trimLeftBy ws [] = []"
| "trimLeftBy ws (c # cs) =
     (case find (\<lambda>w. w \<noteq> [] \<and> prefix w (c # cs)) ws of
        None \<Rightarrow> c # cs
      | Some w \<Rightarrow> trimLeftBy ws (drop (length w - 1) cs))"

definition TrimLeft :: "string \<Rightarrow> string" where
  "TrimLeft s = trimLeftBy spaceRunes s"

definition TrimRight :: "string \<Rightarrow> string" where
  "TrimRight s = rev (trimLeftBy (map rev spaceRunes) (rev s))"

definition TrimSpace :: "string \<Rightarrow> string" where
  "TrimSpace s = TrimRight (TrimLeft s)"

text \<open>\<^verbatim>\<open>strings.Split(s, ",")\<close>: the pieces between the separators; one empty piece for
  the empty string.\<close>

fun Split :: "string \<Rightarrow> char \<Rightarrow> string list" where
  "Split [] sep = [[]]"
| "Split (c # cs) sep =
     (if c = sep then [] # Split cs sep
      else (case Split cs sep of
              [] \<Rightarrow> [[c]]
            | x # xs \<Rightarrow> (c # x) # xs))"

text \<open>\<^verbatim>\<open>strings.Join(elems, ",")\<close>.\<close>

fun Join :: "string list \<Rightarrow> char \<Rightarrow> string" where
  "Join [] sep = []"
| "Join [x] sep = x"
| "Join (x # y # ys) sep = x @ sep # Join (y # ys) sep"

text \<open>\<^verbatim>\<open>strings.HasSuffix\<close> is \<^const>\<open>suffix\<close>. A slice expression \<^verbatim>\<open>s[n:]\<close> panics
  when \<open>n\<close> exceeds the length.\<close>

datatype error = SliceBoundsOutOfRange

definition sliceFrom :: "nat \<Rightarrow> string \<Rightarrow> error + string" where
  "sliceFrom n s = (if n \<le> length s then Inr (drop n s) else Inl SliceBoundsOutOfRange)"

text \<open>\<^verbatim>\<open>filepath.Base\<close> on a Unix path: strip trailing slashes, keep the last element.\<close>

definition Base :: "string \<Rightarrow> string" where
  "Base path =
     (if path = [] then ''.''
      else let p = rev (dropWhile (\<lambda>c. c = CHR ''/'') (rev path));
               e = rev (takeWhile (\<lambda>c. c \<noteq> CHR ''/'') (rev p))
           in if e = [] then ''/'' else e)"

subsection \<open>The settings held by the ini library\<close>

text \<open>
  The program keeps its settings in an \<^verbatim>\<open>*ini.File\<close> of \<^verbatim>\<open>gopkg.in/ini.v1\<close>, which
  is not part of the repository. The model keeps what the program can observe of it: the
  string value of each key of each section, the empty string where the key is absent
  (\<^verbatim>\<open>Section(s).Key(k).String()\<close> returns the empty string there).
\<close>

type_synonym ini_file = "string \<Rightarrow> string \<Rightarrow> string"

definition iniEmpty :: ini_file where
  "iniEmpty = (\<lambda>sec key. [])"

definition keyString :: "ini_file \<Rightarrow> string \<Rightarrow> string \<Rightarrow> string" where
  "keyString cfg sec key = cfg sec key"

definition SetValue :: "ini_file \<Rightarrow> string \<Rightarrow> string \<Rightarrow> string \<Rightarrow> ini_file" where
  "SetValue cfg sec key v = cfg(sec := (cfg sec)(key := v))"

subsection \<open>The world outside the process\<close>

text \<open>
  The settings file \<^verbatim>\<open>config.conf\<close> is absent, present but rejected by \<^verbatim>\<open>ini.Load\<close>, or
  holds settings. The file format belongs to the ini library: the model stores the
  settings a file holds, not its bytes, and a write of the settings file succeeds (the
  program ignores the error value of \<^verbatim>\<open>SaveTo\<close>).
\<close>

datatype cfile = NoFile | Unparsable | Holds ini_file

datatype stat = StatOk | StatNotExist | StatOtherError

text \<open>
  \<^item> \<open>scriptsDir\<close>, \<open>themesDir\<close>: the entries of the two managed directories, name and
    content, in directory-listing order (permission bits are not modelled);
  \<^item> \<open>srcStat\<close>, \<open>srcRead\<close>: what \<^verbatim>\<open>os.Stat\<close> and \<^verbatim>\<open>ioutil.ReadFile\<close> answer on a path typed
    by the user (\<open>Inl\<close> is the text of the error); the operating system resolves such a
    path, and the model does not relate it to the entries of the managed directories;
  \<^item> \<open>writeErr\<close>: the error, if any, of \<^verbatim>\<open>ioutil.WriteFile\<close> on a file name of a managed
    directory;
  \<^item> \<open>answers\<close>: the standard output of the successive runs of the selector; once the
    list is used up every further menu is dismissed (empty output);
  \<^item> \<open>shown\<close>: the prompt and the options of every menu shown so far;
  \<^item> \<open>mapRank\<close>: a \<^verbatim>\<open>range\<close> over a Go map yields its keys in an order the language
    leaves open; they come sorted by a rank that the world chooses anew for each menu.
\<close>

record world =
  configFile :: cfile
  scriptsDir :: "(string \<times> string) list"
  themesDir :: "(string \<times> string) list"
  srcStat :: "string \<Rightarrow> stat"
  srcRead :: "string \<Rightarrow> string + string"
  writeErr :: "string \<Rightarrow> string option"
  answers :: "string list"
  shown :: "(string \<times> string list) list"
  mapRank :: "nat \<Rightarrow> string \<Rightarrow> nat"

subsection \<open>RofiManager and its settings store\<close>

text \<open>The four path fields of the Go struct are fixed by the home directory; the model
  addresses the settings file and the two directories through the world's fields.\<close>

record RofiManager =
  config :: ini_file
  allModes :: "string list"

definition defaultConfig :: ini_file where
  "defaultConfig =
     SetValue (SetValue (SetValue iniEmpty ''modes'' ''enabled'' ''run,drun,window'')
                 ''scripts'' ''enabled'' [])
       ''theme'' ''enabled'' []"

text \<open>\<^verbatim>\<open>os.MkdirAll\<close> of the two directories leaves their entries as they are.\<close>

definition ensureConfigDirs :: "RofiManager \<Rightarrow> world \<Rightarrow> world" where
  "ensureConfigDirs rm w =
     (case configFile w of
        NoFile \<Rightarrow> w\<lparr>configFile := Holds defaultConfig\<rparr>
      | _ \<Rightarrow> w)"

definition iniLoad :: "world \<Rightarrow> ini_file option" where
  "iniLoad w = (case configFile w of Holds cfg \<Rightarrow> Some cfg | _ \<Rightarrow> None)"

definition loadConfig :: "RofiManager \<Rightarrow> world \<Rightarrow> RofiManager \<times> world" where
  "loadConfig rm w =
     (case iniLoad w of
        None \<Rightarrow> (rm\<lparr>config := defaultConfig\<rparr>, w\<lparr>configFile := Holds defaultConfig\<rparr>)
      | Some cfg \<Rightarrow> (rm\<lparr>config := cfg\<rparr>, w))"

definition saveConfig :: "RofiManager \<Rightarrow> world \<Rightarrow> world" where
  "saveConfig rm w = w\<lparr>configFile := Holds (config rm)\<rparr>"

definition NewRofiManager :: "world \<Rightarrow> RofiManager \<times> world" where
  "NewRofiManager w =
     (let manager = \<lparr>config = iniEmpty,
                     allModes = [''run'', ''drun'', ''window'', ''ssh'', ''filebrowser'', ''key'']\<rparr>;
          w1 = ensureConfigDirs manager w
      in loadConfig manager w1)"

definition getEnabledModes :: "RofiManager \<Rightarrow> string list" where
  "getEnabledModes rm =
     (let val = keyString (config rm) ''modes'' ''enabled''
      in filter (\<lambda>m. m \<noteq> []) (map TrimSpace (Split val (CHR '',''))))"

definition setEnabledModes :: "RofiManager \<Rightarrow> string list \<Rightarrow> world \<Rightarrow> RofiManager \<times> world" where
  "setEnabledModes rm modes w =
     (let rm' = rm\<lparr>config := SetValue (config rm) ''modes'' ''enabled'' (Join modes (CHR '',''))\<rparr>
      in (rm', saveConfig rm' w))"

definition getEnabledScripts :: "RofiManager \<Rightarrow> string list" where
  "getEnabledScripts rm =
     (let val = keyString (config rm) ''scripts'' ''enabled''
      in filter (\<lambda>s. s \<noteq> []) (map TrimSpace (Split val (CHR '',''))))"

definition setEnabledScripts :: "RofiManager \<Rightarrow> string list \<Rightarrow> world \<Rightarrow> RofiManager \<times> world" where
  "setEnabledScripts rm scripts w =
     (let rm' = rm\<lparr>config := SetValue (config rm) ''scripts'' ''enabled'' (Join scripts (CHR '',''))\<rparr>
      in (rm', saveConfig rm' w))"

definition getEnabledTheme :: "RofiManager \<Rightarrow> string" where
  "getEnabledTheme rm = keyString (config rm) ''theme'' ''enabled''"

definition setEnabledTheme :: "RofiManager \<Rightarrow> string \<Rightarrow> world \<Rightarrow> RofiManager \<times> world" where
  "setEnabledTheme rm theme w =
     (let rm' = rm\<lparr>config := SetValue (config rm) ''theme'' ''enabled'' theme\<rparr>
      in (rm', saveConfig rm' w))"

subsection \<open>Asset listing and the menu\<close>

text \<open>A directory that cannot be read lists as empty.\<close>

definition loadScripts :: "RofiManager \<Rightarrow> world \<Rightarrow> string list" where
  "loadScripts rm w = filter (\<lambda>name. suffix ''.sh'' name) (map fst (scriptsDir w))"

definition loadThemes :: "RofiManager \<Rightarrow> world \<Rightarrow> string list" where
  "loadThemes rm w = filter (\<lambda>name. suffix ''.rasi'' name) (map fst (themesDir w))"

text \<open>
  \<^verbatim>\<open>rofiMenu\<close> runs the selector on the options and returns its trimmed output. The
  \<^verbatim>\<open>-theme\<close> argument built from \<open>theme\<close> only changes the selector's appearance and is
  not recorded.
\<close>

definition rofiMenu ::
  "RofiManager \<Rightarrow> string \<Rightarrow> string list \<Rightarrow> string \<Rightarrow> world \<Rightarrow> string \<times> world" where
  "rofiMenu rm prompt options theme w =
     (let out = (case answers w of [] \<Rightarrow> [] | a # _ \<Rightarrow> a);
          w' = w\<lparr>answers := (case answers w of [] \<Rightarrow> [] | _ # rest \<Rightarrow> rest),
                 shown := shown w @ [(prompt, options)]\<rparr>
      in (TrimSpace out, w'))"

definition showInfo :: "RofiManager \<Rightarrow> string \<Rightarrow> world \<Rightarrow> world" where
  "showInfo rm message w = snd (rofiMenu rm message [''OK''] (getEnabledTheme rm) w)"

subsection \<open>Adding a script or a theme\<close>

text \<open>
  The destination \<^verbatim>\<open>filepath.Join(dir, filepath.Base(path))\<close> is the entry named
  \<open>Base path\<close> of the managed directory: where it is computed \<open>path\<close> ends in the required
  extension, so \<open>Base path\<close> is a plain file name (lemma \<open>Base_plain\<close> below). The local
  function \<open>copy\<close> is the tail of the Go function, from \<^verbatim>\<open>ioutil.ReadFile\<close> on. A write that
  fails leaves the directory as it was.
\<close>

definition addScript :: "RofiManager \<Rightarrow> world \<Rightarrow> RofiManager \<times> world" where
  "addScript rm w =
     (let (path, w1) = rofiMenu rm ''Path to script (.sh)'' [[]] (getEnabledTheme rm) w
      in if path = [] then (rm, w1)
         else if srcStat w1 path = StatNotExist
           then (rm, showInfo rm ''File does not exist.'' w1)
         else if \<not> suffix ''.sh'' path
           then (rm, showInfo rm ''File must end with .sh'' w1)
         else
           let dest = Base path;
               copy = (\<lambda>w2.
                 case srcRead w2 path of
                   Inl err \<Rightarrow>
                     (rm, showInfo rm (''Error copying file:'' @ [CHR 0x0A] @ err) w2)
                 | Inr input \<Rightarrow>
                     (case writeErr w2 dest of
                        Some err \<Rightarrow>
                          (rm, showInfo rm (''Error copying file:'' @ [CHR 0x0A] @ err) w2)
                      | None \<Rightarrow>
                          (rm, w2\<lparr>scriptsDir := AList.update dest input (scriptsDir w2)\<rparr>)))
           in if dest \<in> set (map fst (scriptsDir w1))
              then (let (overwrite, w2) =
                          rofiMenu rm (''Overwrite '' @ Base path @ ''?'') [''No'', ''Yes'']
                            (getEnabledTheme rm) w1
                    in if overwrite \<noteq> ''Yes'' then (rm, w2) else copy w2)
              else copy w1)"

definition addTheme :: "RofiManager \<Rightarrow> world \<Rightarrow> RofiManager \<times> world" where
  "addTheme rm w =
     (let (path, w1) = rofiMenu rm ''Path to theme (.rasi)'' [[]] (getEnabledTheme rm) w
      in if path = [] then (rm, w1)
         else if srcStat w1 path = StatNotExist
           then (rm, showInfo rm ''File does not exist.'' w1)
         else if \<not> suffix ''.rasi'' path
           then (rm, showInfo rm ''File must end with .rasi'' w1)
         else
           let dest = Base path;
               copy = (\<lambda>w2.
                 case srcRead w2 path of
                   Inl err \<Rightarrow>
                     (rm, showInfo rm (''Error copying file:'' @ [CHR 0x0A] @ err) w2)
                 | Inr input \<Rightarrow>
                     (case writeErr w2 dest of
                        Some err \<Rightarrow>
                          (rm, showInfo rm (''Error copying file:'' @ [CHR 0x0A] @ err) w2)
                      | None \<Rightarrow>
                          (rm, w2\<lparr>themesDir := AList.update dest input (themesDir w2)\<rparr>)))
           in if dest \<in> set (map fst (themesDir w1))
              then (let (overwrite, w2) =
                          rofiMenu rm (''Overwrite '' @ Base path @ ''?'') [''No'', ''Yes'']
                            (getEnabledTheme rm) w1
                    in if overwrite \<noteq> ''Yes'' then (rm, w2) else copy w2)
              else copy w1)"

subsection \<open>The toggle workflows\<close>

text \<open>
  \<^verbatim>\<open>enabledSet\<close> is a Go \<^verbatim>\<open>map[string]bool\<close>: an association list here. Reading a key
  that is absent gives \<^verbatim>\<open>false\<close>; \<^verbatim>\<open>range\<close> yields the keys in an order the world chooses.
\<close>

type_synonym boolmap = "(string \<times> bool) list"

definition mapGet :: "boolmap \<Rightarrow> string \<Rightarrow> bool" where
  "mapGet m k = (case map_of m k of None \<Rightarrow> False | Some b \<Rightarrow> b)"

definition rangeKeys :: "world \<Rightarrow> boolmap \<Rightarrow> string list" where
  "rangeKeys w m = sort_key (mapRank w (length (shown w))) (map fst m)"

text \<open>The loop \<^verbatim>\<open>for _, s := range enabled { enabledSet[s] = true }\<close>.\<close>

definition makeSet :: "string list \<Rightarrow> boolmap" where
  "makeSet enabled = fold (\<lambda>s m. AList.update s True m) enabled []"

text \<open>The flip of one key, written out in both \<^verbatim>\<open>enableScript\<close> and \<^verbatim>\<open>toggleModes\<close>.\<close>

definition toggleKey :: "boolmap \<Rightarrow> string \<Rightarrow> boolmap" where
  "toggleKey enabledSet k =
     (if mapGet enabledSet k then AList.delete k enabledSet
      else AList.update k True enabledSet)"

datatype ctl = Break | Continue

definition scriptOptions :: "string list \<Rightarrow> boolmap \<Rightarrow> string list" where
  "scriptOptions scripts enabledSet =
     map (\<lambda>script. (if mapGet enabledSet script then ''[x]'' else ''[ ]'') @ '' '' @ script)
       scripts"

text \<open>One pass through the body of the \<^verbatim>\<open>for\<close> loop of \<^verbatim>\<open>enableScript\<close>.\<close>

definition enableScriptIter ::
  "string list \<Rightarrow> RofiManager \<Rightarrow> boolmap \<Rightarrow> world
     \<Rightarrow> error + (ctl \<times> RofiManager \<times> boolmap \<times> world)" where
  "enableScriptIter scripts rm enabledSet w =
     (let options = scriptOptions scripts enabledSet;
          (choice, w1) = rofiMenu rm ''Toggle scripts (Enter to finish)'' options
                           (getEnabledTheme rm) w
      in if choice = [] then Inr (Break, rm, enabledSet, w1)
         else (case sliceFrom 4 choice of
                 Inl e \<Rightarrow> Inl e
               | Inr rest \<Rightarrow>
                   let script = TrimSpace rest;
                       enabledSet' = toggleKey enabledSet script;
                       newEnabled = rangeKeys w1 enabledSet';
                       (rm', w2) = setEnabledScripts rm newEnabled w1
                   in Inr (Continue, rm', enabledSet', w2)))"

function enableScriptLoop ::
  "string list \<Rightarrow> RofiManager \<Rightarrow> boolmap \<Rightarrow> world \<Rightarrow> error + (RofiManager \<times> world)" where
  "enableScriptLoop scripts rm enabledSet w =
     (case enableScriptIter scripts rm enabledSet w of
        Inl e \<Rightarrow> Inl e
      | Inr (c, rm', enabledSet', w') \<Rightarrow>
          (case c of
             Break \<Rightarrow> Inr (rm', w')
           | Continue \<Rightarrow> enableScriptLoop scripts rm' enabledSet' w'))"
  by pat_completeness auto
termination
proof (relation "measure (\<lambda>(scripts, rm, enabledSet, w). length (answers w))")
  show "wf (measure (\<lambda>(scripts, rm, enabledSet, w). length (answers w)))"
    by simp
next
  fix scripts rm enabledSet w x c y rm' z enabledSet' w'
  assume "enableScriptIter scripts rm enabledSet w = Inr x" "(c, y) = x" "(rm', z) = y"
    "(enabledSet', w') = z" "c = Continue"
  then have "enableScriptIter scripts rm enabledSet w = Inr (Continue, rm', enabledSet', w')"
    by simp
  then have "length (answers w') < length (answers w)"
    by (cases "answers w")
       (auto simp: enableScriptIter_def rofiMenu_def setEnabledScripts_def saveConfig_def
          TrimSpace_def TrimLeft_def TrimRight_def Let_def
          split: if_splits sum.splits prod.splits)
  then show "((scripts, rm', enabledSet', w'), (scripts, rm, enabledSet, w))
       \<in> measure (\<lambda>(scripts, rm, enabledSet, w). length (answers w))"
    by simp
qed

definition enableScript :: "RofiManager \<Rightarrow> world \<Rightarrow> error + (RofiManager \<times> world)" where
  "enableScript rm w =
     (let scripts = loadScripts rm w
      in if scripts = [] then Inr (rm, showInfo rm ''No scripts found.'' w)
         else enableScriptLoop scripts rm (makeSet (getEnabledScripts rm)) w)"

definition themeOptions :: "string list \<Rightarrow> string \<Rightarrow> string list" where
  "themeOptions themes enabledTheme =
     map (\<lambda>theme. (if theme = enabledTheme then ''[x]'' else ''[ ]'') @ '' '' @ theme) themes"

text \<open>One pass through the body of the \<^verbatim>\<open>for\<close> loop of \<^verbatim>\<open>enableTheme\<close>; the string in
  the result is the local variable \<^verbatim>\<open>enabledTheme\<close>.\<close>

definition enableThemeIter ::
  "string list \<Rightarrow> RofiManager \<Rightarrow> string \<Rightarrow> world
     \<Rightarrow> error + (ctl \<times> RofiManager \<times> string \<times> world)" where
  "enableThemeIter themes rm enabledTheme w =
     (let options = themeOptions themes enabledTheme;
          (choice, w1) = rofiMenu rm ''Select theme (Enter to escape)'' options enabledTheme w
      in if choice = [] then Inr (Break, rm, enabledTheme, w1)
         else (case sliceFrom 4 choice of
                 Inl e \<Rightarrow> Inl e
               | Inr rest \<Rightarrow>
                   let theme = TrimSpace rest;
                       enabledTheme' = (if theme = enabledTheme then [] else theme);
                       (rm', w2) = setEnabledTheme rm enabledTheme' w1
                   in Inr (Continue, rm', getEnabledTheme rm', w2)))"

function enableThemeLoop ::
  "string list \<Rightarrow> RofiManager \<Rightarrow> string \<Rightarrow> world \<Rightarrow> error + (RofiManager \<times> world)" where
  "enableThemeLoop themes rm enabledTheme w =
     (case enableThemeIter themes rm enabledTheme w of
        Inl e \<Rightarrow> Inl e
      | Inr (c, rm', enabledTheme', w') \<Rightarrow>
          (case c of
             Break \<Rightarrow> Inr (rm', w')
           | Continue \<Rightarrow> enableThemeLoop themes rm' enabledTheme' w'))"
  by pat_completeness auto
termination
proof (relation "measure (\<lambda>(themes, rm, enabledTheme, w). length (answers w))")
  show "wf (measure (\<lambda>(themes, rm, enabledTheme, w). length (answers w)))"
    by simp
next
  fix themes rm enabledTheme w x c y rm' z enabledTheme' w'
  assume "enableThemeIter themes rm enabledTheme w = Inr x" "(c, y) = x" "(rm', z) = y"
    "(enabledTheme', w') = z" "c = Continue"
  then have "enableThemeIter themes rm enabledTheme w = Inr (Continue, rm', enabledTheme', w')"
    by simp
  then have "length (answers w') < length (answers w)"
    by (cases "answers w")
       (auto simp: enableThemeIter_def rofiMenu_def setEnabledTheme_def saveConfig_def
          TrimSpace_def TrimLeft_def TrimRight_def Let_def
          split: if_splits sum.splits prod.splits)
  then show "((themes, rm', enabledTheme', w'), (themes, rm, enabledTheme, w))
       \<in> measure (\<lambda>(themes, rm, enabledTheme, w). length (answers w))"
    by simp
qed

definition enableTheme :: "RofiManager \<Rightarrow> world \<Rightarrow> error + (RofiManager \<times> world)" where
  "enableTheme rm w =
     (let themes = loadThemes rm w
      in if themes = [] then Inr (rm, showInfo rm ''No themes found.'' w)
         else enableThemeLoop themes rm (getEnabledTheme rm) w)"

definition modeOptions :: "RofiManager \<Rightarrow> boolmap \<Rightarrow> string list" where
  "modeOptions rm enabledSet =
     map (\<lambda>mode. (if mapGet enabledSet mode then ''[x]'' else ''[ ]'') @ '' '' @ mode)
       (allModes rm)"

text \<open>One pass through the body of the \<^verbatim>\<open>for\<close> loop of \<^verbatim>\<open>toggleModes\<close>.\<close>

definition toggleModesIter ::
  "RofiManager \<Rightarrow> boolmap \<Rightarrow> world \<Rightarrow> error + (ctl \<times> RofiManager \<times> boolmap \<times> world)" where
  "toggleModesIter rm enabledSet w =
     (let options = modeOptions rm enabledSet;
          (choice, w1) = rofiMenu rm ''Toggle modes (Enter to finish)'' options
                           (getEnabledTheme rm) w
      in if choice = [] then Inr (Break, rm, enabledSet, w1)
         else (case sliceFrom 4 choice of
                 Inl e \<Rightarrow> Inl e
               | Inr rest \<Rightarrow>
                   let mode = TrimSpace rest;
                       enabledSet' = toggleKey enabledSet mode;
                       newEnabled = rangeKeys w1 enabledSet';
                       (rm', w2) = setEnabledModes rm newEnabled w1
                   in Inr (Continue, rm', enabledSet', w2)))"

function toggleModesLoop ::
  "RofiManager \<Rightarrow> boolmap \<Rightarrow> world \<Rightarrow> error + (RofiManager \<times> world)" where
  "toggleModesLoop rm enabledSet w =
     (case toggleModesIter rm enabledSet w of
        Inl e \<Rightarrow> Inl e
      | Inr (c, rm', enabledSet', w') \<Rightarrow>
          (case c of
             Break \<Rightarrow> Inr (rm', w')
           | Continue \<Rightarrow> toggleModesLoop rm' enabledSet' w'))"
  by pat_completeness auto
termination
proof (relation "measure (\<lambda>(rm, enabledSet, w). length (answers w))")
  show "wf (measure (\<lambda>(rm, enabledSet, w). length (answers w)))"
    by simp
next
  fix rm enabledSet w x c y rm' z enabledSet' w'
  assume "toggleModesIter rm enabledSet w = Inr x" "(c, y) = x" "(rm', z) = y"
    "(enabledSet', w') = z" "c = Continue"
  then have "toggleModesIter rm enabledSet w = Inr (Continue, rm', enabledSet', w')"
    by simp
  then have "length (answers w') < length (answers w)"
    by (cases "answers w")
       (auto simp: toggleModesIter_def rofiMenu_def setEnabledModes_def saveConfig_def
          TrimSpace_def TrimLeft_def TrimRight_def Let_def
          split: if_splits sum.splits prod.splits)
  then show "((rm', enabledSet', w'), (rm, enabledSet, w))
       \<in> measure (\<lambda>(rm, enabledSet, w). length (answers w))"
    by simp
qed

definition toggleModes :: "RofiManager \<Rightarrow> world \<Rightarrow> error + (RofiManager \<times> world)" where
  "toggleModes rm w = toggleModesLoop rm (makeSet (getEnabledModes rm)) w"

text \<open>
  The states in which \<^verbatim>\<open>toggleModes\<close>, started on \<open>rm0\<close> in the world \<open>w0\<close>, stands at the
  head of its loop: the manager, the local \<^verbatim>\<open>enabledSet\<close> and the world at that moment.
\<close>

inductive toggleModesAt ::
  "RofiManager \<Rightarrow> world \<Rightarrow> RofiManager \<Rightarrow> boolmap \<Rightarrow> world \<Rightarrow> bool"
  for rm0 :: RofiManager and w0 :: world where
  atStart: "toggleModesAt rm0 w0 rm0 (makeSet (getEnabledModes rm0)) w0"
| atNext: "toggleModesAt rm0 w0 rm enabledSet w \<Longrightarrow>
           toggleModesIter rm enabledSet w = Inr (Continue, rm', enabledSet', w') \<Longrightarrow>
           toggleModesAt rm0 w0 rm' enabledSet' w'"

subsection \<open>Notions used to state the properties\<close>

definition hasLeadingSpace :: "string \<Rightarrow> bool" where
  "hasLeadingSpace s = list_ex (\<lambda>w. prefix w s) spaceRunes"

definition hasTrailingSpace :: "string \<Rightarrow> bool" where
  "hasTrailingSpace s = list_ex (\<lambda>w. suffix w s) spaceRunes"


text \<open>What the loop of \<^verbatim>\<open>getEnabledModes\<close> and \<^verbatim>\<open>getEnabledScripts\<close> reads back from
  one element of a joined list: its trimmed, non-empty pieces.\<close>

definition pieces :: "string \<Rightarrow> string list" where
  "pieces k = filter (\<lambda>m. m \<noteq> []) (map TrimSpace (Split k (CHR '','')))"

text \<open>
  The local \<^verbatim>\<open>enabledSet\<close> of a toggle loop agrees with the list the getter returns: every
  key is stored with \<^verbatim>\<open>true\<close>, and the list has the elements that the keys read back as.
  This holds when a loop is entered and after every pass through it.
\<close>

definition inSync :: "string list \<Rightarrow> boolmap \<Rightarrow> bool" where
  "inSync persisted enabledSet =
     (list_all snd enabledSet \<and>
      set persisted = set (concat (map pieces (map fst enabledSet))))"

text \<open>The selector outputs read between the world \<open>w0\<close> and the later world \<open>w\<close>.\<close>

definition selectionsMade :: "world \<Rightarrow> world \<Rightarrow> string list" where
  "selectionsMade w0 w = take (length (answers w0) - length (answers w)) (answers w0)"

subsection \<open>Sample inputs\<close>

definition sampleWorld :: world where
  "sampleWorld =
     \<lparr>configFile = NoFile, scriptsDir = [(''a.sh'', ''echo a'')],
      themesDir = [(''t.rasi'', ''* {}'')], srcStat = (\<lambda>p. StatNotExist),
      srcRead = (\<lambda>p. Inl ''no such file''), writeErr = (\<lambda>n. None), answers = [],
      shown = [], mapRank = (\<lambda>n k. 0)\<rparr>"

definition sampleManager :: RofiManager where
  "sampleManager = fst (NewRofiManager sampleWorld)"


definition overwriteWorld :: world where
  "overwriteWorld =
     sampleWorld\<lparr>answers := [''/tmp/a.sh'', ''No''],
       srcStat := (\<lambda>p. if p = ''/tmp/a.sh'' then StatOk else StatNotExist),
       srcRead := (\<lambda>p. if p = ''/tmp/a.sh'' then Inr ''echo new'' else Inl ''no such file'')\<rparr>"

definition startWorld :: world where
  "startWorld = snd (NewRofiManager sampleWorld)"

definition commaWorld :: world where
  "commaWorld = startWorld\<lparr>answers := [''[ ] ssh,key'']\<rparr>"

definition pickWorld :: world where
  "pickWorld = startWorld\<lparr>answers := [''[ ] ssh'', ''[ ] ssh'']\<rparr>"

definition combiWorld :: world where
  "combiWorld =
     sampleWorld\<lparr>configFile := Holds (SetValue iniEmpty ''modes'' ''enabled'' ''combi'')\<rparr>"

definition spaceThemeWorld :: world where
  "spaceThemeWorld =
     startWorld\<lparr>themesDir := [('' t.rasi'', ''* {}'')], answers := [''[ ]  t.rasi'']\<rparr>"

definition scriptPickWorld :: world where
  "scriptPickWorld = startWorld\<lparr>answers := [''[ ] a.sh'', ''[ ] a.sh'']\<rparr>"

definition themePickWorld :: world where
  "themePickWorld = startWorld\<lparr>answers := [''[ ] t.rasi'']\<rparr>"

subsection \<open>Facts about the string functions\<close>

lemma trimLeftBy_id:
  "\<forall>w\<in>set ws. \<not> (w \<noteq> [] \<and> prefix w s) \<Longrightarrow> trimLeftBy ws s = s"
  by (cases s) (auto simp: find_Some_iff split: option.splits)

lemma trimLeftBy_noLead:
  "w \<in> set ws \<Longrightarrow> w \<noteq> [] \<Longrightarrow> \<not> prefix w (trimLeftBy ws s)"
proof (induction ws s rule: trimLeftBy.induct)
  case (1 ws)
  then show ?case by simp
next
  case (2 ws c cs)
  then show ?case by (auto simp: find_None_iff split: option.splits)
qed

lemma trimLeftBy_suffix: "suffix (trimLeftBy ws s) s"
proof (induction ws s rule: trimLeftBy.induct)
  case (1 ws)
  then show ?case by simp
next
  case (2 ws c cs)
  show ?case
  proof (cases "find (\<lambda>w. w \<noteq> [] \<and> prefix w (c # cs)) ws")
    case None
    then show ?thesis by simp
  next
    case (Some w)
    have "suffix (trimLeftBy ws (drop (length w - 1) cs)) (drop (length w - 1) cs)"
      using 2 Some by simp
    moreover have "suffix (drop (length w - 1) cs) (c # cs)"
      by (meson suffix_ConsI suffix_drop)
    ultimately show ?thesis using Some by (auto intro: suffix_order.trans)
  qed
qed

lemma spaceRunes_nonempty: "w \<in> set spaceRunes \<Longrightarrow> w \<noteq> []"
  by (auto simp: spaceRunes_def)

lemma TrimLeft_id: "\<not> hasLeadingSpace s \<Longrightarrow> TrimLeft s = s"
  unfolding TrimLeft_def hasLeadingSpace_def
  by (rule trimLeftBy_id) (simp add: list_ex_iff)

lemma TrimRight_id: "\<not> hasTrailingSpace s \<Longrightarrow> TrimRight s = s"
proof -
  assume a: "\<not> hasTrailingSpace s"
  have "trimLeftBy (map rev spaceRunes) (rev s) = rev s"
  proof (rule trimLeftBy_id, rule ballI)
    fix w assume "w \<in> set (map rev spaceRunes)"
    then obtain v where v: "v \<in> set spaceRunes" "w = rev v" by auto
    with a have "\<not> suffix v s" by (auto simp: hasTrailingSpace_def list_ex_iff)
    with v show "\<not> (w \<noteq> [] \<and> prefix w (rev s))" by (simp add: suffix_to_prefix)
  qed
  then show ?thesis by (simp add: TrimRight_def)
qed

lemma TrimLeft_noLead: "\<not> hasLeadingSpace (TrimLeft s)"
  unfolding hasLeadingSpace_def TrimLeft_def list_ex_iff
  using trimLeftBy_noLead spaceRunes_nonempty by blast

lemma TrimRight_noTrail: "\<not> hasTrailingSpace (TrimRight s)"
proof -
  have "\<not> suffix w (TrimRight s)" if "w \<in> set spaceRunes" for w
  proof -
    have "rev w \<in> set (map rev spaceRunes)" "rev w \<noteq> []"
      using that spaceRunes_nonempty by auto
    then have "\<not> prefix (rev w) (trimLeftBy (map rev spaceRunes) (rev s))"
      by (rule trimLeftBy_noLead)
    then show ?thesis by (simp add: TrimRight_def suffix_to_prefix)
  qed
  then show ?thesis by (auto simp: hasTrailingSpace_def list_ex_iff)
qed

lemma TrimRight_prefix: "prefix (TrimRight s) s"
proof -
  have "suffix (trimLeftBy (map rev spaceRunes) (rev s)) (rev s)"
    by (rule trimLeftBy_suffix)
  then show ?thesis by (simp add: TrimRight_def suffix_to_prefix)
qed

lemma TrimLeft_suffix: "suffix (TrimLeft s) s"
  by (simp add: TrimLeft_def trimLeftBy_suffix)

lemma TrimSpace_noLead: "\<not> hasLeadingSpace (TrimSpace s)"
proof
  assume "hasLeadingSpace (TrimSpace s)"
  then obtain w where w: "w \<in> set spaceRunes" "prefix w (TrimRight (TrimLeft s))"
    by (auto simp: hasLeadingSpace_def list_ex_iff TrimSpace_def)
  from w(2) TrimRight_prefix have "prefix w (TrimLeft s)"
    by (rule prefix_order.trans)
  with w(1) have "hasLeadingSpace (TrimLeft s)"
    by (auto simp: hasLeadingSpace_def list_ex_iff)
  then show False by (simp add: TrimLeft_noLead)
qed

lemma TrimSpace_noTrail: "\<not> hasTrailingSpace (TrimSpace s)"
  by (simp add: TrimSpace_def TrimRight_noTrail)

lemma TrimSpace_id: "\<not> hasLeadingSpace s \<Longrightarrow> \<not> hasTrailingSpace s \<Longrightarrow> TrimSpace s = s"
  by (simp add: TrimSpace_def TrimLeft_id TrimRight_id)

lemma TrimSpace_idem: "TrimSpace (TrimSpace s) = TrimSpace s"
  by (rule TrimSpace_id) (rule TrimSpace_noLead, rule TrimSpace_noTrail)

lemma TrimSpace_Nil: "TrimSpace [] = []"
  by (simp add: TrimSpace_def TrimLeft_def TrimRight_def)

lemma set_TrimSpace: "set (TrimSpace s) \<subseteq> set s"
proof -
  have "set (TrimRight (TrimLeft s)) \<subseteq> set (TrimLeft s)"
    using TrimRight_prefix by (rule set_mono_prefix)
  moreover have "set (TrimLeft s) \<subseteq> set s"
    using TrimLeft_suffix by (rule set_mono_suffix)
  ultimately show ?thesis by (simp add: TrimSpace_def)
qed

lemma Split_not_Nil: "Split s sep \<noteq> []"
  by (induction s) (auto split: list.splits)

lemma Split_no_sep: "sep \<notin> set s \<Longrightarrow> Split s sep = [s]"
  by (induction s) auto

lemma Split_append_sep: "Split (a @ sep # b) sep = Split a sep @ Split b sep"
  by (induction a) (auto simp: Split_not_Nil split: list.splits)

lemma Split_Join:
  "xs \<noteq> [] \<Longrightarrow> Split (Join xs sep) sep = concat (map (\<lambda>x. Split x sep) xs)"
proof (induction xs sep rule: Join.induct)
  case (1 sep)
  then show ?case by simp
next
  case (2 x sep)
  then show ?case by simp
next
  case (3 x y ys sep)
  then show ?case by (simp add: Split_append_sep)
qed

lemma pieces_Join:
  "filter (\<lambda>m. m \<noteq> []) (map TrimSpace (Split (Join xs (CHR '','')) (CHR '','')))
     = concat (map pieces xs)"
proof (cases "xs = []")
  case True
  then show ?thesis by (simp add: TrimSpace_Nil)
next
  case False
  then show ?thesis
    by (simp add: Split_Join pieces_def [abs_def] map_concat filter_concat comp_def)
qed

lemma pieces_clean:
  "CHR '','' \<notin> set k \<Longrightarrow> TrimSpace k = k \<Longrightarrow> pieces k = (if k = [] then [] else [k])"
  by (simp add: pieces_def Split_no_sep)


subsection \<open>Facts about the settings store\<close>

lemma getEnabledModes_set:
  "getEnabledModes (fst (setEnabledModes rm ks w)) = concat (map pieces ks)"
  by (simp add: getEnabledModes_def setEnabledModes_def keyString_def SetValue_def Let_def
      pieces_Join)


lemma defaultConfig_values:
  "keyString defaultConfig ''modes'' ''enabled'' = ''run,drun,window''"
  "keyString defaultConfig ''scripts'' ''enabled'' = []"
  "keyString defaultConfig ''theme'' ''enabled'' = []"
  by (simp_all add: defaultConfig_def keyString_def SetValue_def iniEmpty_def)

lemma default_getters:
  "config rm = defaultConfig \<Longrightarrow> getEnabledModes rm = [''run'', ''drun'', ''window'']"
  "config rm = defaultConfig \<Longrightarrow> getEnabledScripts rm = []"
  "config rm = defaultConfig \<Longrightarrow> getEnabledTheme rm = []"
  by (simp_all add: getEnabledModes_def getEnabledScripts_def getEnabledTheme_def
      defaultConfig_values TrimSpace_def TrimLeft_def TrimRight_def spaceRunes_def)




subsection \<open>Facts about the menu and the add workflows\<close>

lemma rofiMenu_eq:
  "rofiMenu rm p os t w =
     (TrimSpace (case answers w of [] \<Rightarrow> [] | a # _ \<Rightarrow> a),
      w\<lparr>answers := tl (answers w), shown := shown w @ [(p, os)]\<rparr>)"
  by (cases "answers w") (simp_all add: rofiMenu_def)

lemma showInfo_eq:
  "showInfo rm m w = w\<lparr>answers := tl (answers w), shown := shown w @ [(m, [''OK''])]\<rparr>"
  by (simp add: showInfo_def rofiMenu_eq)


lemma TrimSpace_samples:
  "TrimSpace ''notes.txt'' = ''notes.txt''"
  "TrimSpace ''/tmp/a.sh'' = ''/tmp/a.sh''"
  "TrimSpace ''No'' = ''No''"
  by (simp_all add: TrimSpace_def TrimLeft_def TrimRight_def spaceRunes_def)

lemma Base_sample: "Base ''/tmp/a.sh'' = ''a.sh''"
  by (simp add: Base_def)

lemma Base_plain:
  assumes "suffix ext path" and "ext \<noteq> []" and "CHR ''/'' \<notin> set ext"
  shows "suffix ext (Base path) \<and> CHR ''/'' \<notin> set (Base path)"
proof -
  from assms(1) obtain q where q: "path = q @ ext" by (auto simp: suffix_def)
  from assms(2) obtain c cs where h: "rev ext = c # cs" by (cases "rev ext") auto
  then have "c \<in> set ext" by (metis list.set_intros(1) set_rev)
  with assms(3) have l: "c \<noteq> CHR ''/''" by auto
  have d: "dropWhile (\<lambda>c. c = CHR ''/'') (rev path) = rev path"
    using l by (simp add: q h)
  have t: "takeWhile (\<lambda>c. c \<noteq> CHR ''/'') (rev ext @ rev q)
             = rev ext @ takeWhile (\<lambda>c. c \<noteq> CHR ''/'') (rev q)"
    by (rule takeWhile_append2) (use assms(3) in auto)
  have b: "Base path = rev (takeWhile (\<lambda>c. c \<noteq> CHR ''/'') (rev q)) @ ext"
    using assms(2) by (simp add: Base_def d Let_def) (simp add: q t)
  have "CHR ''/'' \<notin> set (takeWhile (\<lambda>c. c \<noteq> CHR ''/'') (rev q))"
    by (auto dest: set_takeWhileD)
  with assms(3) show ?thesis by (auto simp: b suffix_def)
qed

subsection \<open>Facts about the toggle workflows\<close>

lemma sliceFrom_ok: "4 \<le> length c \<Longrightarrow> sliceFrom 4 c = Inr (drop 4 c)"
  by (simp add: sliceFrom_def)

lemma modeOptions_length: "c \<in> set (modeOptions rm es) \<Longrightarrow> 4 \<le> length c"
  by (auto simp: modeOptions_def)

lemma scriptOptions_length: "c \<in> set (scriptOptions scripts es) \<Longrightarrow> 4 \<le> length c"
  by (auto simp: scriptOptions_def)

lemma themeOptions_length: "c \<in> set (themeOptions themes t) \<Longrightarrow> 4 \<le> length c"
  by (auto simp: themeOptions_def)

lemma toggleModesIter_Continue:
  "answers w = a # rest \<Longrightarrow> 4 \<le> length (TrimSpace a) \<Longrightarrow>
   toggleModesIter rm es w =
     (let w1 = w\<lparr>answers := rest,
                  shown := shown w @ [(''Toggle modes (Enter to finish)'', modeOptions rm es)]\<rparr>;
          es' = toggleKey es (TrimSpace (drop 4 (TrimSpace a)));
          r = setEnabledModes rm (rangeKeys w1 es') w1
      in Inr (Continue, fst r, es', snd r))"
  by (auto simp: toggleModesIter_def rofiMenu_eq sliceFrom_ok Let_def split: prod.splits)

lemma enableScriptIter_Continue:
  "answers w = a # rest \<Longrightarrow> 4 \<le> length (TrimSpace a) \<Longrightarrow>
   enableScriptIter scripts rm es w =
     (let w1 = w\<lparr>answers := rest,
                  shown := shown w @
                    [(''Toggle scripts (Enter to finish)'', scriptOptions scripts es)]\<rparr>;
          es' = toggleKey es (TrimSpace (drop 4 (TrimSpace a)));
          r = setEnabledScripts rm (rangeKeys w1 es') w1
      in Inr (Continue, fst r, es', snd r))"
  by (auto simp: enableScriptIter_def rofiMenu_eq sliceFrom_ok Let_def split: prod.splits)

lemma enableThemeIter_Continue:
  "answers w = a # rest \<Longrightarrow> 4 \<le> length (TrimSpace a) \<Longrightarrow>
   enableThemeIter themes rm t w =
     (let w1 = w\<lparr>answers := rest,
                  shown := shown w @
                    [(''Select theme (Enter to escape)'', themeOptions themes t)]\<rparr>;
          theme = TrimSpace (drop 4 (TrimSpace a));
          r = setEnabledTheme rm (if theme = t then [] else theme) w1
      in Inr (Continue, fst r, getEnabledTheme (fst r), snd r))"
  by (auto simp: enableThemeIter_def rofiMenu_eq sliceFrom_ok Let_def split: prod.splits)



lemma Split_pieces_no_sep: "x \<in> set (Split s sep) \<Longrightarrow> sep \<notin> set x"
proof (induction s arbitrary: x)
  case Nil
  then show ?case by simp
next
  case (Cons c cs)
  then show ?case
    by (cases "Split cs sep") (auto simp: Split_not_Nil split: if_splits)
qed

lemma pieces_member_clean:
  assumes "k \<in> set (pieces s)"
  shows "k \<noteq> []" "CHR '','' \<notin> set k" "TrimSpace k = k"
proof -
  from assms obtain x where x: "x \<in> set (Split s (CHR '',''))" "k = TrimSpace x" "k \<noteq> []"
    by (auto simp: pieces_def)
  show "k \<noteq> []" by (rule x(3))
  from x(1) have "CHR '','' \<notin> set x" by (rule Split_pieces_no_sep)
  with set_TrimSpace [of x] x(2) show "CHR '','' \<notin> set k" by auto
  show "TrimSpace k = k" by (simp add: x(2) TrimSpace_idem)
qed

lemma pieces_pieces: "k \<in> set (pieces s) \<Longrightarrow> pieces k = [k]"
  by (simp add: pieces_clean pieces_member_clean)

lemma getEnabledModes_pieces:
  "getEnabledModes rm = pieces (keyString (config rm) ''modes'' ''enabled'')"
  by (simp add: getEnabledModes_def pieces_def)


lemma map_of_fold_update:
  "map_of (fold (\<lambda>s m. AList.update s True m) xs m0) k =
     (if k \<in> set xs then Some True else map_of m0 k)"
  by (induction xs arbitrary: m0) (auto simp: update_conv')

lemma keys_fold_update:
  "fst ` set (fold (\<lambda>s m. AList.update s True m) xs m0) = set xs \<union> fst ` set m0"
  by (induction xs arbitrary: m0) (auto simp: dom_update)

lemma list_all_snd_update: "list_all snd al \<Longrightarrow> list_all snd (AList.update k True al)"
  by (induction al) auto

lemma list_all_snd_delete: "list_all snd al \<Longrightarrow> list_all snd (AList.delete k al)"
  by (induction al) auto

lemma list_all_snd_fold:
  "list_all snd m0 \<Longrightarrow> list_all snd (fold (\<lambda>s m. AList.update s True m) xs m0)"
  by (induction xs arbitrary: m0) (auto simp: list_all_snd_update)

lemma makeSet_keys: "fst ` set (makeSet xs) = set xs"
  by (simp add: makeSet_def keys_fold_update)

lemma makeSet_all: "list_all snd (makeSet xs)"
  by (simp add: makeSet_def list_all_snd_fold)

lemma toggleKey_all: "list_all snd es \<Longrightarrow> list_all snd (toggleKey es k)"
  by (simp add: toggleKey_def list_all_snd_update list_all_snd_delete)

lemma mapGet_keys: "list_all snd es \<Longrightarrow> mapGet es k \<longleftrightarrow> k \<in> fst ` set es"
proof
  assume "list_all snd es" "mapGet es k"
  then show "k \<in> fst ` set es"
    by (auto simp: mapGet_def split: option.splits dest!: map_of_SomeD intro: rev_image_eqI)
next
  assume a: "list_all snd es" "k \<in> fst ` set es"
  then obtain b where "map_of es k = Some b"
    by (auto dest: weak_map_of_SomeI)
  moreover from this have "(k, b) \<in> set es" by (rule map_of_SomeD)
  with a(1) have "b" by (auto simp: list_all_iff)
  ultimately show "mapGet es k" by (simp add: mapGet_def)
qed

lemma toggleKey_keys:
  "list_all snd es \<Longrightarrow>
   fst ` set (toggleKey es k) =
     (if k \<in> fst ` set es then fst ` set es - {k} else insert k (fst ` set es))"
proof -
  assume a: "list_all snd es"
  have d: "fst ` set (AList.delete k es) = fst ` set es - {k}"
    using delete_keys [of k es] by (metis list.set_map set_removeAll)
  show ?thesis
    using a by (auto simp: toggleKey_def mapGet_keys d dom_update)
qed


lemma set_getEnabledModes_written:
  "set (getEnabledModes (fst (setEnabledModes rm (rangeKeys w es) w'))) =
     (\<Union>k\<in>fst ` set es. set (pieces k))"
  by (simp add: getEnabledModes_set rangeKeys_def)


lemma inSync_unfold:
  "inSync p es \<longleftrightarrow> list_all snd es \<and> set p = (\<Union>k\<in>fst ` set es. set (pieces k))"
  by (simp add: inSync_def)

lemma inSync_start: "inSync (pieces s) (makeSet (pieces s))"
proof -
  have "(\<Union>k\<in>set (pieces s). set (pieces k)) = set (pieces s)"
    by (auto simp: pieces_pieces)
  then show ?thesis
    unfolding inSync_unfold makeSet_keys by (simp add: makeSet_all)
qed

lemma toggleModesIter_ContinueD:
  assumes "toggleModesIter rm es w = Inr (Continue, rm', es', w')"
  shows "\<exists>a rest w1. answers w = a # rest \<and> 4 \<le> length (TrimSpace a) \<and>
           w1 = w\<lparr>answers := rest,
                   shown := shown w @ [(''Toggle modes (Enter to finish)'', modeOptions rm es)]\<rparr> \<and>
           es' = toggleKey es (TrimSpace (drop 4 (TrimSpace a))) \<and>
           rm' = fst (setEnabledModes rm (rangeKeys w1 es') w1) \<and>
           w' = snd (setEnabledModes rm (rangeKeys w1 es') w1)"
proof (cases "answers w")
  case Nil
  with assms show ?thesis
    by (simp add: toggleModesIter_def rofiMenu_eq TrimSpace_Nil)
next
  case (Cons a rest)
  show ?thesis
  proof (cases "4 \<le> length (TrimSpace a)")
    case True
    with assms Cons show ?thesis
      by (auto simp: toggleModesIter_Continue Let_def)
  next
    case False
    with assms Cons show ?thesis
      by (simp add: toggleModesIter_def rofiMenu_eq sliceFrom_def Let_def split: if_splits)
  qed
qed

lemma setEnabledModes_fields:
  "allModes (fst (setEnabledModes rm ks w)) = allModes rm"
  "configFile (snd (setEnabledModes rm ks w)) = Holds (config (fst (setEnabledModes rm ks w)))"
  "answers (snd (setEnabledModes rm ks w)) = answers w"
  by (simp_all add: setEnabledModes_def saveConfig_def Let_def)

lemma selectionsMade_eq: "answers w0 = p @ answers w \<Longrightarrow> selectionsMade w0 w = p"
  by (simp add: selectionsMade_def)

lemma toggleModesAt_inv:
  assumes "toggleModesAt rm0 w0 rm es w"
  shows "allModes rm = allModes rm0 \<and>
         answers w0 = selectionsMade w0 w @ answers w \<and>
         (configFile w0 = Holds (config rm0) \<longrightarrow> configFile w = Holds (config rm)) \<and>
         inSync (getEnabledModes rm) es \<and>
         fst ` set es \<subseteq> set (getEnabledModes rm0) \<union>
           {TrimSpace (drop 4 (TrimSpace a)) | a.
              a \<in> set (selectionsMade w0 w) \<and> 4 \<le> length (TrimSpace a)}"
  using assms
proof (induction rule: toggleModesAt.induct)
  case atStart
  show ?case
    by (simp add: getEnabledModes_pieces inSync_start makeSet_keys selectionsMade_def)
next
  case (atNext rm es w rm' es' w')
  from toggleModesIter_ContinueD [OF atNext.hyps(2)]
  obtain a rest w1 where d: "answers w = a # rest" "4 \<le> length (TrimSpace a)"
    "w1 = w\<lparr>answers := rest,
            shown := shown w @ [(''Toggle modes (Enter to finish)'', modeOptions rm es)]\<rparr>"
    "es' = toggleKey es (TrimSpace (drop 4 (TrimSpace a)))"
    "rm' = fst (setEnabledModes rm (rangeKeys w1 es') w1)"
    "w' = snd (setEnabledModes rm (rangeKeys w1 es') w1)"
    by blast
  note ih = atNext.IH
  from ih have all: "list_all snd es" by (simp add: inSync_unfold)
  have 1: "allModes rm' = allModes rm0"
    using ih d(5) by (simp add: setEnabledModes_fields)
  have r: "answers w' = rest"
    by (simp add: d(3,6) setEnabledModes_fields)
  from ih d(1) have "answers w0 = (selectionsMade w0 w @ [a]) @ answers w'"
    by (simp add: r)
  then have m: "selectionsMade w0 w' = selectionsMade w0 w @ [a]"
    by (rule selectionsMade_eq)
  from ih d(1) have 2: "answers w0 = selectionsMade w0 w' @ answers w'"
    by (simp add: m r)
  have 3: "configFile w' = Holds (config rm')"
    by (simp add: d(5,6) setEnabledModes_fields)
  have 4: "inSync (getEnabledModes rm') es'"
    unfolding inSync_unfold d(5)
    by (simp add: set_getEnabledModes_written d(4) toggleKey_all all)
  have "fst ` set es' \<subseteq> insert (TrimSpace (drop 4 (TrimSpace a))) (fst ` set es)"
    by (auto simp: d(4) toggleKey_keys all split: if_splits)
  with ih d(2) have 5: "fst ` set es' \<subseteq> set (getEnabledModes rm0) \<union>
           {TrimSpace (drop 4 (TrimSpace a)) | a.
              a \<in> set (selectionsMade w0 w') \<and> 4 \<le> length (TrimSpace a)}"
    unfolding m by auto
  from 1 2 3 4 5 show ?case by simp
qed

lemma toggleModesAt_loop:
  "toggleModesAt rm0 w0 rm es w \<Longrightarrow> toggleModesLoop rm es w = toggleModes rm0 w0"
proof (induction rule: toggleModesAt.induct)
  case atStart
  show ?case by (simp add: toggleModes_def)
next
  case (atNext rm es w rm' es' w')
  have "toggleModesLoop rm es w = toggleModesLoop rm' es' w'"
    by (subst toggleModesLoop.simps) (simp add: atNext.hyps(2))
  with atNext.IH show ?case by simp
qed

lemma clean_key_member:
  assumes "CHR '','' \<notin> set k" "TrimSpace k = k" "m \<noteq> []"
  shows "m \<in> set (pieces k) \<longleftrightarrow> m = k"
  using assms by (auto simp: pieces_clean)

lemma sampleManager_eq:
  "sampleManager = \<lparr>config = defaultConfig,
       allModes = [''run'', ''drun'', ''window'', ''ssh'', ''filebrowser'', ''key'']\<rparr>"
  by (simp add: sampleManager_def NewRofiManager_def ensureConfigDirs_def loadConfig_def
      iniLoad_def sampleWorld_def)

lemma startWorld_eq: "startWorld = sampleWorld\<lparr>configFile := Holds defaultConfig\<rparr>"
  by (simp add: startWorld_def NewRofiManager_def ensureConfigDirs_def loadConfig_def
      iniLoad_def sampleWorld_def)

lemma sampleManager_modes: "getEnabledModes sampleManager = [''run'', ''drun'', ''window'']"
  by (simp add: sampleManager_eq default_getters)

lemma TrimSpace_comma: "TrimSpace ''[ ] ssh,key'' = ''[ ] ssh,key''" "TrimSpace ''ssh,key'' = ''ssh,key''"
  by (simp_all add: TrimSpace_def TrimLeft_def TrimRight_def spaceRunes_def)

lemma six_TrimSpace_each:
  "TrimSpace ''run'' = ''run''" "TrimSpace ''drun'' = ''drun''" "TrimSpace ''window'' = ''window''"
  "TrimSpace ''ssh'' = ''ssh''" "TrimSpace ''filebrowser'' = ''filebrowser''"
  "TrimSpace ''key'' = ''key''"
  by (simp_all add: TrimSpace_def TrimLeft_def TrimRight_def spaceRunes_def)

lemma six_TrimSpace:
  "m \<in> set [''run'', ''drun'', ''window'', ''ssh'', ''filebrowser'', ''key''] \<Longrightarrow> TrimSpace m = m"
  using six_TrimSpace_each by auto

lemma six_pieces:
  "m \<in> set [''run'', ''drun'', ''window'', ''ssh'', ''filebrowser'', ''key''] \<Longrightarrow> pieces m = [m]"
proof -
  assume a: "m \<in> set [''run'', ''drun'', ''window'', ''ssh'', ''filebrowser'', ''key'']"
  then have "CHR '','' \<notin> set m" "m \<noteq> []" by auto
  with six_TrimSpace [OF a] show ?thesis by (simp add: pieces_clean)
qed





lemma TrimSpace_pick: "TrimSpace ''[ ] ssh'' = ''[ ] ssh''"
  by (simp add: TrimSpace_def TrimLeft_def TrimRight_def spaceRunes_def)

lemma TrimSpace_more:
  "TrimSpace ''[ ]  t.rasi'' = ''[ ]  t.rasi''"
  "TrimSpace '' t.rasi'' = ''t.rasi''"
  "TrimSpace ''[ ] a.sh'' = ''[ ] a.sh''"
  "TrimSpace ''[ ] t.rasi'' = ''[ ] t.rasi''"
  "TrimSpace ''t.rasi'' = ''t.rasi''"
  by (simp_all add: TrimSpace_def TrimLeft_def TrimRight_def spaceRunes_def)

lemma sampleManager_allModes:
  "allModes sampleManager = [''run'', ''drun'', ''window'', ''ssh'', ''filebrowser'', ''key'']"
  by (simp add: sampleManager_eq)

lemma sampleManager_theme: "getEnabledTheme sampleManager = []"
  by (simp add: sampleManager_eq default_getters)

lemma rasi_no_trailing_space: "suffix ''.rasi'' t \<Longrightarrow> \<not> hasTrailingSpace t"
proof
  assume s: "suffix ''.rasi'' t" and "hasTrailingSpace t"
  then obtain w where w: "w \<in> set spaceRunes" "suffix w t"
    by (auto simp: hasTrailingSpace_def list_ex_iff)
  from s obtain p where p: "t = p @ ''.rasi''" by (auto simp: suffix_def)
  from w(1) have "w \<noteq> []" by (rule spaceRunes_nonempty)
  with w(2) have "last w = last t" by (auto simp: suffix_def)
  with p have "last w = CHR ''i''" by simp
  with w(1) show False by (auto simp: spaceRunes_def)
qed

lemma enableThemeIter_select:
  assumes "answers w = a # rest"
    and "TrimSpace a = (if theme = t then ''[x]'' else ''[ ]'') @ '' '' @ theme"
    and "\<not> hasLeadingSpace theme" and "suffix ''.rasi'' theme"
  shows "\<exists>rm' w'. enableThemeIter themes rm t w =
             Inr (Continue, rm', (if theme = t then [] else theme), w') \<and>
           getEnabledTheme rm' = (if theme = t then [] else theme) \<and>
           configFile w' = Holds (config rm')"
proof -
  from assms(3,4) have tr: "TrimSpace theme = theme"
    by (simp add: TrimSpace_id rasi_no_trailing_space)
  from assms(2) have len: "4 \<le> length (TrimSpace a)" and d: "drop 4 (TrimSpace a) = theme"
    by (auto split: if_splits)
  show ?thesis
    using assms(1) len
    by (simp add: enableThemeIter_Continue d tr Let_def setEnabledTheme_def saveConfig_def
        getEnabledTheme_def keyString_def SetValue_def)
qed

lemma pick_step:
  obtains rm1 es1 w1 where
    "toggleModesIter sampleManager (makeSet (getEnabledModes sampleManager)) pickWorld =
       Inr (Continue, rm1, es1, w1)"
    "answers w1 = [''[ ] ssh'']"
    "getEnabledModes rm1 = [''run'', ''drun'', ''window'', ''ssh'']"
proof -
  let ?es = "makeSet (getEnabledModes sampleManager)"
  let ?w = "pickWorld\<lparr>answers := [''[ ] ssh''],
              shown := shown pickWorld @
                [(''Toggle modes (Enter to finish)'', modeOptions sampleManager ?es)]\<rparr>"
  let ?r = "setEnabledModes sampleManager [''run'', ''drun'', ''window'', ''ssh''] ?w"
  have k: "rangeKeys ?w (toggleKey ?es ''ssh'') = [''run'', ''drun'', ''window'', ''ssh'']"
    by (simp add: rangeKeys_def pickWorld_def startWorld_eq sampleWorld_def sort_key_const
        sampleManager_modes makeSet_def toggleKey_def mapGet_def)
  have a: "answers pickWorld = ''[ ] ssh'' # [''[ ] ssh'']"
    by (simp add: pickWorld_def)
  have l: "4 \<le> length (TrimSpace ''[ ] ssh'')"
    by (simp add: TrimSpace_pick)
  have t: "TrimSpace (drop 4 (TrimSpace ''[ ] ssh'')) = ''ssh''"
    by (simp add: TrimSpace_pick six_TrimSpace_each)
  have "toggleModesIter sampleManager ?es pickWorld =
          Inr (Continue, fst ?r, toggleKey ?es ''ssh'', snd ?r)"
    using toggleModesIter_Continue [OF a l, of sampleManager ?es]
    unfolding Let_def t k .
  moreover have "answers (snd ?r) = [''[ ] ssh'']"
    by (simp add: setEnabledModes_fields)
  moreover have "getEnabledModes (fst ?r) = [''run'', ''drun'', ''window'', ''ssh'']"
    by (simp add: getEnabledModes_set six_pieces)
  ultimately show ?thesis by (rule that)
qed

lemma toggleModesAt_marks:
  assumes "toggleModesAt rm0 w0 rm es w"
    and "allModes rm0 = [''run'', ''drun'', ''window'', ''ssh'', ''filebrowser'', ''key'']"
    and "configFile w0 = Holds (config rm0)"
    and "\<forall>a\<in>set (selectionsMade w0 w). CHR '','' \<notin> set a"
  shows "configFile w = Holds (config rm) \<and>
         modeOptions rm es =
           map (\<lambda>mode. (if mode \<in> set (getEnabledModes rm) then ''[x]'' else ''[ ]'')
                         @ '' '' @ mode)
             [''run'', ''drun'', ''window'', ''ssh'', ''filebrowser'', ''key'']"
proof -
  note inv = toggleModesAt_inv [OF assms(1)]
  from inv have all: "list_all snd es"
    and sync: "set (getEnabledModes rm) = (\<Union>k\<in>fst ` set es. set (pieces k))"
    by (simp_all add: inSync_unfold)
  have clean: "CHR '','' \<notin> set k \<and> TrimSpace k = k" if "k \<in> fst ` set es" for k
  proof -
    from inv that consider "k \<in> set (getEnabledModes rm0)"
      | a where "a \<in> set (selectionsMade w0 w)" "k = TrimSpace (drop 4 (TrimSpace a))"
      by blast
    then show ?thesis
    proof cases
      case 1
      then show ?thesis by (simp add: getEnabledModes_pieces pieces_member_clean)
    next
      case 2
      have "set k \<subseteq> set a"
        using set_TrimSpace [of "drop 4 (TrimSpace a)"] set_drop_subset [of 4 "TrimSpace a"]
          set_TrimSpace [of a] 2(2) by blast
      with assms(4) 2(1) show ?thesis by (auto simp: 2(2) TrimSpace_idem)
    qed
  qed
  have mark: "mode \<in> set (getEnabledModes rm) \<longleftrightarrow> mapGet es mode" if "mode \<noteq> []" for mode
  proof -
    have "mode \<in> set (getEnabledModes rm) \<longleftrightarrow> (\<exists>k\<in>fst ` set es. mode \<in> set (pieces k))"
      by (simp add: sync)
    also have "\<dots> \<longleftrightarrow> mode \<in> fst ` set es"
      using clean that by (metis clean_key_member)
    also have "\<dots> \<longleftrightarrow> mapGet es mode"
      by (simp add: mapGet_keys all)
    finally show ?thesis .
  qed
  have "modeOptions rm es =
           map (\<lambda>mode. (if mode \<in> set (getEnabledModes rm) then ''[x]'' else ''[ ]'')
                         @ '' '' @ mode)
             [''run'', ''drun'', ''window'', ''ssh'', ''filebrowser'', ''key'']"
    using inv assms(2) by (simp add: modeOptions_def mark)
  with inv assms(3) show ?thesis by simp
qed

section \<open>The claims\<close>




text \<open>
  C2 (amended). At the head of every iteration of the \<^verbatim>\<open>toggleModes\<close> loop, the options
  shown are exactly one entry per mode of the six-name vocabulary, in its order, and no
  other entry; provided no selection made so far holds a comma (none of the displayed
  options does), each entry carries \<^verbatim>\<open>[x]\<close> exactly when its mode is in the enabled modes that
  the settings hold at that moment, in memory and in the settings file, and \<^verbatim>\<open>[ ]\<close>
  otherwise.
\<close>

theorem toggleModes_options_match:
  assumes "toggleModesAt rm0 w0 rm es w"
    and "allModes rm0 = [''run'', ''drun'', ''window'', ''ssh'', ''filebrowser'', ''key'']"
    and "configFile w0 = Holds (config rm0)"
  shows "map (drop 4) (modeOptions rm es) =
           [''run'', ''drun'', ''window'', ''ssh'', ''filebrowser'', ''key''] \<and>
         ((\<forall>a\<in>set (selectionsMade w0 w). CHR '','' \<notin> set a) \<longrightarrow>
            configFile w = Holds (config rm) \<and>
            modeOptions rm es =
              map (\<lambda>mode. (if mode \<in> set (getEnabledModes rm) then ''[x]'' else ''[ ]'')
                            @ '' '' @ mode)
                [''run'', ''drun'', ''window'', ''ssh'', ''filebrowser'', ''key''])"
proof -
  from toggleModesAt_inv [OF assms(1)] assms(2)
  have "allModes rm = [''run'', ''drun'', ''window'', ''ssh'', ''filebrowser'', ''key'']"
    by simp
  then have "map (drop 4) (modeOptions rm es) =
           [''run'', ''drun'', ''window'', ''ssh'', ''filebrowser'', ''key'']"
    by (simp add: modeOptions_def)
  with toggleModesAt_marks [OF assms] show ?thesis by blast
qed

theorem toggleModes_options_match_witness:
  "case toggleModesIter sampleManager (makeSet (getEnabledModes sampleManager)) pickWorld of
     Inl e \<Rightarrow> False
   | Inr (c, rm1, es1, w1) \<Rightarrow>
       selectionsMade pickWorld w1 = [''[ ] ssh''] \<and>
       configFile w1 = Holds (config rm1) \<and>
       modeOptions rm1 es1 =
         [''[x] run'', ''[x] drun'', ''[x] window'', ''[x] ssh'', ''[ ] filebrowser'',
          ''[ ] key'']"
proof -
  obtain rm1 es1 w1 where
    it: "toggleModesIter sampleManager (makeSet (getEnabledModes sampleManager)) pickWorld =
       Inr (Continue, rm1, es1, w1)"
    and a: "answers w1 = [''[ ] ssh'']"
    and g: "getEnabledModes rm1 = [''run'', ''drun'', ''window'', ''ssh'']"
    by (rule pick_step)
  have 1: "toggleModesAt sampleManager pickWorld rm1 es1 w1"
    by (rule toggleModesAt.atNext [OF toggleModesAt.atStart it])
  have 3: "configFile pickWorld = Holds (config sampleManager)"
    by (simp add: pickWorld_def startWorld_eq sampleManager_eq)
  have s: "selectionsMade pickWorld w1 = [''[ ] ssh'']"
    by (simp add: selectionsMade_def a) (simp add: pickWorld_def)
  have 4: "\<forall>a\<in>set (selectionsMade pickWorld w1). CHR '','' \<notin> set a"
    by (simp add: s)
  from toggleModes_options_match [OF 1 sampleManager_allModes 3] 4 show ?thesis
    by (simp add: it s g)
qed

text \<open>
  The claim as written fails when the user types a selection with a comma: after
  \<^verbatim>\<open>[ ] ssh,key\<close> the settings hold the modes ssh and key, while the next menu still shows
  \<^verbatim>\<open>[ ] ssh\<close>.
\<close>

theorem toggleModes_options_counterexample:
  "case toggleModesIter sampleManager (makeSet (getEnabledModes sampleManager)) commaWorld of
     Inl e \<Rightarrow> False
   | Inr (c, rm1, es1, w1) \<Rightarrow>
       toggleModesAt sampleManager commaWorld rm1 es1 w1 \<and>
       ''ssh'' \<in> set (getEnabledModes rm1) \<and> ''[ ] ssh'' \<in> set (modeOptions rm1 es1)"
proof -
  let ?es = "makeSet (getEnabledModes sampleManager)"
  obtain rm1 es1 w1 where
    it: "toggleModesIter sampleManager ?es commaWorld = Inr (Continue, rm1, es1, w1)"
    and es1: "es1 = toggleKey ?es ''ssh,key''"
    and rm1: "rm1 = fst (setEnabledModes sampleManager
                 [''run'', ''drun'', ''window'', ''ssh,key''] w1)"
    by (simp add: commaWorld_def startWorld_eq sampleWorld_def toggleModesIter_Continue
        TrimSpace_comma Let_def rangeKeys_def sort_key_const sampleManager_modes makeSet_def
        toggleKey_def mapGet_def setEnabledModes_def)
  have at: "toggleModesAt sampleManager commaWorld rm1 es1 w1"
    by (rule toggleModesAt.atNext [OF toggleModesAt.atStart it])
  have m: "''ssh'' \<in> set (getEnabledModes rm1)"
    by (simp add: rm1 getEnabledModes_set pieces_def TrimSpace_def TrimLeft_def TrimRight_def
        spaceRunes_def)
  have o: "''[ ] ssh'' \<in> set (modeOptions rm1 es1)"
    by (simp add: rm1 es1 modeOptions_def setEnabledModes_def Let_def sampleManager_eq
        sampleManager_modes [unfolded sampleManager_eq] makeSet_def toggleKey_def mapGet_def)
  from it at m o show ?thesis by simp
qed

text \<open>
  C3. In \<^verbatim>\<open>enableTheme\<close>, selecting a listed theme that is not the enabled one should make
  it the enabled theme. The code does not do so for a listed theme whose file name starts
  with white space: the name is trimmed when it is read back from the selected line, and
  the trimmed name, which names no listed theme, is what gets enabled and persisted.
\<close>

theorem enableTheme_leading_space:
  "loadThemes sampleManager spaceThemeWorld = ['' t.rasi''] \<and>
   getEnabledTheme sampleManager = [] \<and>
   themeOptions (loadThemes sampleManager spaceThemeWorld) (getEnabledTheme sampleManager)
     = [''[ ]  t.rasi''] \<and>
   answers spaceThemeWorld = [''[ ]  t.rasi''] \<and>
   (case enableTheme sampleManager spaceThemeWorld of
      Inl e \<Rightarrow> False
    | Inr (rm', w') \<Rightarrow>
        getEnabledTheme rm' = ''t.rasi'' \<and> getEnabledTheme rm' \<noteq> '' t.rasi'' \<and>
        configFile w' = Holds (config rm'))"
proof -
  have l: "loadThemes sampleManager spaceThemeWorld = ['' t.rasi'']"
    by (simp add: loadThemes_def spaceThemeWorld_def suffix_to_prefix)
  have a: "answers spaceThemeWorld = [''[ ]  t.rasi'']" "shown spaceThemeWorld = []"
    by (simp_all add: spaceThemeWorld_def startWorld_eq sampleWorld_def)
  have o: "themeOptions ['' t.rasi''] [] = [''[ ]  t.rasi'']"
     "themeOptions ['' t.rasi''] ''t.rasi'' = [''[ ]  t.rasi'']"
    by (simp_all add: themeOptions_def)
  define w1 where "w1 = spaceThemeWorld\<lparr>answers := [],
                shown := [(''Select theme (Enter to escape)'', [''[ ]  t.rasi''])]\<rparr>"
  define rm1 where "rm1 = fst (setEnabledTheme sampleManager ''t.rasi'' w1)"
  define w2 where "w2 = snd (setEnabledTheme sampleManager ''t.rasi'' w1)"
  have i: "enableThemeIter ['' t.rasi''] sampleManager [] spaceThemeWorld =
      Inr (Continue, rm1, ''t.rasi'', w2)"
    using a
    by (simp add: enableThemeIter_Continue TrimSpace_more Let_def o getEnabledTheme_def
        setEnabledTheme_def keyString_def SetValue_def rm1_def w2_def w1_def)
  have w2: "answers w2 = []" "shown w2 = [(''Select theme (Enter to escape)'', [''[ ]  t.rasi''])]"
    "configFile w2 = Holds (config rm1)"
    by (simp_all add: w2_def w1_def rm1_def setEnabledTheme_def saveConfig_def Let_def)
  have j: "enableThemeIter ['' t.rasi''] rm1 ''t.rasi'' w2 =
      Inr (Break, rm1, ''t.rasi'',
           w2\<lparr>answers := [], shown := shown w2 @ [(''Select theme (Enter to escape)'', [''[ ]  t.rasi''])]\<rparr>)"
    by (simp add: enableThemeIter_def rofiMenu_eq w2 TrimSpace_Nil o Let_def)
  have t: "getEnabledTheme rm1 = ''t.rasi''"
    by (simp add: rm1_def getEnabledTheme_def setEnabledTheme_def keyString_def SetValue_def Let_def)
  have "enableTheme sampleManager spaceThemeWorld =
      Inr (rm1, w2\<lparr>answers := [], shown := shown w2 @ [(''Select theme (Enter to escape)'', [''[ ]  t.rasi''])]\<rparr>)"
    unfolding enableTheme_def l sampleManager_theme Let_def
    by (subst enableThemeLoop.simps, simp add: i, subst enableThemeLoop.simps, simp add: j)
  then show ?thesis by (simp add: l a o sampleManager_theme t w2)
qed



text \<open>
  C5. When the settings file is absent at startup, \<^verbatim>\<open>NewRofiManager\<close> ends with the
  enabled modes run, drun, window, no enabled script and the empty theme, and the
  settings file holds exactly these defaults.
\<close>

theorem absent_settings_file_defaults:
  "configFile w = NoFile \<Longrightarrow>
     (case NewRofiManager w of
        (rm, w') \<Rightarrow>
          getEnabledModes rm = [''run'', ''drun'', ''window''] \<and>
          getEnabledScripts rm = [] \<and> getEnabledTheme rm = [] \<and>
          config rm = defaultConfig \<and> configFile w' = Holds defaultConfig)"
  by (simp add: NewRofiManager_def ensureConfigDirs_def loadConfig_def iniLoad_def
      default_getters)

theorem absent_settings_file_defaults_witness:
  "configFile sampleWorld = NoFile \<and>
     (case NewRofiManager sampleWorld of
        (rm, w') \<Rightarrow>
          getEnabledModes rm = [''run'', ''drun'', ''window''] \<and>
          getEnabledScripts rm = [] \<and> getEnabledTheme rm = [] \<and>
          config rm = defaultConfig \<and> configFile w' = Holds defaultConfig)"
  using absent_settings_file_defaults [of sampleWorld] by (simp add: sampleWorld_def)




text \<open>
  C7. When \<^verbatim>\<open>addScript\<close> is given an existing path ending in \<^verbatim>\<open>.sh\<close> whose base name
  already names a file of the scripts directory, and the answer to the overwrite prompt
  is anything but "Yes", it returns without writing: the world changes only by the two
  menus shown and the two answers read, and the scripts directory is unchanged.
\<close>

theorem addScript_overwrite_declined:
  assumes "answers w = a # bs"
    and "srcStat w (TrimSpace a) \<noteq> StatNotExist"
    and "suffix ''.sh'' (TrimSpace a)"
    and "Base (TrimSpace a) \<in> fst ` set (scriptsDir w)"
    and "TrimSpace (case bs of [] \<Rightarrow> [] | b # _ \<Rightarrow> b) \<noteq> ''Yes''"
  shows "addScript rm w =
           (rm, w\<lparr>answers := tl bs,
                  shown := shown w @
                    [(''Path to script (.sh)'', [[]]),
                     (''Overwrite '' @ Base (TrimSpace a) @ ''?'', [''No'', ''Yes''])]\<rparr>)
         \<and> scriptsDir (snd (addScript rm w)) = scriptsDir w"
proof -
  from assms(3) have n: "TrimSpace a \<noteq> []" by auto
  have "addScript rm w =
           (rm, w\<lparr>answers := tl bs,
                  shown := shown w @
                    [(''Path to script (.sh)'', [[]]),
                     (''Overwrite '' @ Base (TrimSpace a) @ ''?'', [''No'', ''Yes''])]\<rparr>)"
    using assms n by (simp add: addScript_def rofiMenu_eq Let_def)
  then show ?thesis by simp
qed

theorem addScript_overwrite_declined_witness:
  "answers overwriteWorld = ''/tmp/a.sh'' # [''No''] \<and>
   srcStat overwriteWorld (TrimSpace ''/tmp/a.sh'') \<noteq> StatNotExist \<and>
   suffix ''.sh'' (TrimSpace ''/tmp/a.sh'') \<and>
   Base (TrimSpace ''/tmp/a.sh'') \<in> fst ` set (scriptsDir overwriteWorld) \<and>
   TrimSpace (case [''No''] of [] \<Rightarrow> [] | b # _ \<Rightarrow> b) \<noteq> ''Yes'' \<and>
   scriptsDir (snd (addScript sampleManager overwriteWorld)) = [(''a.sh'', ''echo a'')]"
  using addScript_overwrite_declined [of overwriteWorld "''/tmp/a.sh''" "[''No'']" sampleManager]
  by (simp add: overwriteWorld_def sampleWorld_def TrimSpace_samples Base_sample
      suffix_to_prefix)

text \<open>
  C8 (amended). If every enabled mode of the loaded configuration belongs to the six-name
  vocabulary (as the defaults do) and every selection made so far in \<^verbatim>\<open>toggleModes\<close> is
  one of the displayed options, then at the head of every iteration of \<^verbatim>\<open>toggleModes\<close>
  every mode name the settings hold, and \<^verbatim>\<open>getEnabledModes\<close> returns, belongs to the
  six-name list.
\<close>

theorem toggleModes_keeps_vocabulary:
  assumes "toggleModesAt rm0 w0 rm es w"
    and "allModes rm0 = [''run'', ''drun'', ''window'', ''ssh'', ''filebrowser'', ''key'']"
    and "configFile w0 = Holds (config rm0)"
    and "set (getEnabledModes rm0) \<subseteq> set (allModes rm0)"
    and "\<forall>a\<in>set (selectionsMade w0 w).
           \<exists>m\<in>set (allModes rm0). TrimSpace a = ''[x] '' @ m \<or> TrimSpace a = ''[ ] '' @ m"
  shows "configFile w = Holds (config rm) \<and>
         set (getEnabledModes rm) \<subseteq>
           set [''run'', ''drun'', ''window'', ''ssh'', ''filebrowser'', ''key'']"
proof -
  let ?six = "[''run'', ''drun'', ''window'', ''ssh'', ''filebrowser'', ''key'']"
  note inv = toggleModesAt_inv [OF assms(1)]
  from inv have sync: "set (getEnabledModes rm) = (\<Union>k\<in>fst ` set es. set (pieces k))"
    by (simp add: inSync_unfold)
  have keys: "k \<in> set ?six" if "k \<in> fst ` set es" for k
  proof -
    from inv that consider "k \<in> set (getEnabledModes rm0)"
      | a where "a \<in> set (selectionsMade w0 w)" "k = TrimSpace (drop 4 (TrimSpace a))"
      by blast
    then show ?thesis
    proof cases
      case 1
      with assms(4) show ?thesis unfolding assms(2) by (rule subsetD)
    next
      case 2
      with assms(5) obtain m where m: "m \<in> set (allModes rm0)"
        "TrimSpace a = ''[x] '' @ m \<or> TrimSpace a = ''[ ] '' @ m"
        by blast
      then have d: "drop 4 (TrimSpace a) = m" by auto
      from m(1) have s: "m \<in> set ?six" unfolding assms(2) .
      from six_TrimSpace [OF s] s show ?thesis unfolding 2(2) d by simp
    qed
  qed
  have "set (getEnabledModes rm) \<subseteq> set ?six"
  proof
    fix x assume "x \<in> set (getEnabledModes rm)"
    then obtain k where k: "k \<in> fst ` set es" "x \<in> set (pieces k)"
      unfolding sync by blast
    from keys [OF k(1)] have "pieces k = [k]" by (rule six_pieces)
    with k(2) have "x = k" by simp
    with keys [OF k(1)] show "x \<in> set ?six" by simp
  qed
  with inv assms(3) show ?thesis by simp
qed

theorem toggleModes_keeps_vocabulary_witness:
  "case toggleModesIter sampleManager (makeSet (getEnabledModes sampleManager)) pickWorld of
     Inl e \<Rightarrow> False
   | Inr (c, rm1, es1, w1) \<Rightarrow>
       selectionsMade pickWorld w1 = [''[ ] ssh''] \<and>
       configFile w1 = Holds (config rm1) \<and>
       getEnabledModes rm1 = [''run'', ''drun'', ''window'', ''ssh''] \<and>
       set (getEnabledModes rm1) \<subseteq>
         set [''run'', ''drun'', ''window'', ''ssh'', ''filebrowser'', ''key'']"
proof -
  obtain rm1 es1 w1 where
    it: "toggleModesIter sampleManager (makeSet (getEnabledModes sampleManager)) pickWorld =
       Inr (Continue, rm1, es1, w1)"
    and a: "answers w1 = [''[ ] ssh'']"
    and g: "getEnabledModes rm1 = [''run'', ''drun'', ''window'', ''ssh'']"
    by (rule pick_step)
  have 1: "toggleModesAt sampleManager pickWorld rm1 es1 w1"
    by (rule toggleModesAt.atNext [OF toggleModesAt.atStart it])
  have 3: "configFile pickWorld = Holds (config sampleManager)"
    by (simp add: pickWorld_def startWorld_eq sampleManager_eq)
  have 4: "set (getEnabledModes sampleManager) \<subseteq> set (allModes sampleManager)"
    by (simp add: sampleManager_modes sampleManager_allModes)
  have s: "selectionsMade pickWorld w1 = [''[ ] ssh'']"
    by (simp add: selectionsMade_def a) (simp add: pickWorld_def)
  have 5: "\<forall>a\<in>set (selectionsMade pickWorld w1).
           \<exists>m\<in>set (allModes sampleManager). TrimSpace a = ''[x] '' @ m \<or> TrimSpace a = ''[ ] '' @ m"
    by (simp add: s sampleManager_allModes TrimSpace_pick)
  from toggleModes_keeps_vocabulary [OF 1 sampleManager_allModes 3 4 5]
  have "configFile w1 = Holds (config rm1) \<and>
         set (getEnabledModes rm1) \<subseteq>
           set [''run'', ''drun'', ''window'', ''ssh'', ''filebrowser'', ''key'']" .
  then show ?thesis
    by (simp add: it s g)
qed

text \<open>
  The claim as written fails for a settings file that names another mode: nothing
  checks the names that \<^verbatim>\<open>getEnabledModes\<close> reads.
\<close>

theorem getEnabledModes_vocabulary_counterexample:
  "''combi'' \<in> set (getEnabledModes (fst (NewRofiManager combiWorld))) \<and>
   ''combi'' \<notin> set (allModes (fst (NewRofiManager combiWorld)))"
  by (simp add: NewRofiManager_def ensureConfigDirs_def loadConfig_def iniLoad_def
      combiWorld_def sampleWorld_def getEnabledModes_def keyString_def SetValue_def
      TrimSpace_def TrimLeft_def TrimRight_def spaceRunes_def)

text \<open>
  C9. In \<^verbatim>\<open>toggleModes\<close>, \<^verbatim>\<open>enableScript\<close> and \<^verbatim>\<open>enableTheme\<close>, for every non-empty
  selection that equals one of the displayed options, the slice \<^verbatim>\<open>choice[4:]\<close> is in
  bounds and the pass through the loop body does not panic.
\<close>

theorem selection_slice_in_bounds:
  assumes "answers w = a # rest" and "TrimSpace a \<noteq> []"
  shows "(TrimSpace a \<in> set (modeOptions rm es) \<longrightarrow>
            sliceFrom 4 (TrimSpace a) = Inr (drop 4 (TrimSpace a)) \<and>
            \<not> isl (toggleModesIter rm es w)) \<and>
         (TrimSpace a \<in> set (scriptOptions scripts es) \<longrightarrow>
            sliceFrom 4 (TrimSpace a) = Inr (drop 4 (TrimSpace a)) \<and>
            \<not> isl (enableScriptIter scripts rm es w)) \<and>
         (TrimSpace a \<in> set (themeOptions themes t) \<longrightarrow>
            sliceFrom 4 (TrimSpace a) = Inr (drop 4 (TrimSpace a)) \<and>
            \<not> isl (enableThemeIter themes rm t w))"
proof (intro conjI impI)
  assume "TrimSpace a \<in> set (modeOptions rm es)"
  then have l: "4 \<le> length (TrimSpace a)" by (rule modeOptions_length)
  then show "sliceFrom 4 (TrimSpace a) = Inr (drop 4 (TrimSpace a))" by (rule sliceFrom_ok)
  show "\<not> isl (toggleModesIter rm es w)"
    using assms(1) l by (simp add: toggleModesIter_Continue Let_def)
next
  assume "TrimSpace a \<in> set (scriptOptions scripts es)"
  then have l: "4 \<le> length (TrimSpace a)" by (rule scriptOptions_length)
  then show "sliceFrom 4 (TrimSpace a) = Inr (drop 4 (TrimSpace a))" by (rule sliceFrom_ok)
  show "\<not> isl (enableScriptIter scripts rm es w)"
    using assms(1) l by (simp add: enableScriptIter_Continue Let_def)
next
  assume "TrimSpace a \<in> set (themeOptions themes t)"
  then have l: "4 \<le> length (TrimSpace a)" by (rule themeOptions_length)
  then show "sliceFrom 4 (TrimSpace a) = Inr (drop 4 (TrimSpace a))" by (rule sliceFrom_ok)
  show "\<not> isl (enableThemeIter themes rm t w)"
    using assms(1) l by (simp add: enableThemeIter_Continue Let_def)
qed

theorem selection_slice_in_bounds_witness:
  "TrimSpace ''[ ] ssh'' \<noteq> [] \<and>
   TrimSpace ''[ ] ssh'' \<in> set (modeOptions sampleManager (makeSet (getEnabledModes sampleManager))) \<and>
   \<not> isl (toggleModesIter sampleManager (makeSet (getEnabledModes sampleManager)) pickWorld) \<and>
   TrimSpace ''[ ] a.sh'' \<noteq> [] \<and>
   TrimSpace ''[ ] a.sh'' \<in> set (scriptOptions [''a.sh''] []) \<and>
   \<not> isl (enableScriptIter [''a.sh''] sampleManager [] scriptPickWorld) \<and>
   TrimSpace ''[ ] t.rasi'' \<noteq> [] \<and>
   TrimSpace ''[ ] t.rasi'' \<in> set (themeOptions [''t.rasi''] []) \<and>
   \<not> isl (enableThemeIter [''t.rasi''] sampleManager [] themePickWorld)"
proof -
  have m: "TrimSpace ''[ ] ssh'' \<in> set (modeOptions sampleManager (makeSet (getEnabledModes sampleManager)))"
    by (simp add: TrimSpace_pick modeOptions_def sampleManager_modes makeSet_def mapGet_def
        sampleManager_allModes)
  have s: "TrimSpace ''[ ] a.sh'' \<in> set (scriptOptions [''a.sh''] [])"
    by (simp add: TrimSpace_more scriptOptions_def mapGet_def)
  have t: "TrimSpace ''[ ] t.rasi'' \<in> set (themeOptions [''t.rasi''] [])"
    by (simp add: TrimSpace_more themeOptions_def)
  have n: "TrimSpace ''[ ] ssh'' \<noteq> []" "TrimSpace ''[ ] a.sh'' \<noteq> []" "TrimSpace ''[ ] t.rasi'' \<noteq> []"
    by (simp_all add: TrimSpace_pick TrimSpace_more)
  have a: "answers pickWorld = ''[ ] ssh'' # [''[ ] ssh'']"
    "answers scriptPickWorld = ''[ ] a.sh'' # [''[ ] a.sh'']"
    "answers themePickWorld = ''[ ] t.rasi'' # []"
    by (simp_all add: pickWorld_def scriptPickWorld_def themePickWorld_def)
  from selection_slice_in_bounds [OF a(1) n(1), of sampleManager
      "makeSet (getEnabledModes sampleManager)" "[]" "[]" "[]"] m
  have 1: "\<not> isl (toggleModesIter sampleManager (makeSet (getEnabledModes sampleManager)) pickWorld)"
    by blast
  from selection_slice_in_bounds [OF a(2) n(2), of sampleManager "[]" "[''a.sh'']" "[]" "[]"] s
  have 2: "\<not> isl (enableScriptIter [''a.sh''] sampleManager [] scriptPickWorld)"
    by blast
  from selection_slice_in_bounds [OF a(3) n(3), of sampleManager "[]" "[]" "[''t.rasi'']" "[]"] t
  have 3: "\<not> isl (enableThemeIter [''t.rasi''] sampleManager [] themePickWorld)"
    by blast
  from m s t n 1 2 3 show ?thesis by blast
qed

text \<open>
  C10. \<^verbatim>\<open>addScript\<close> and \<^verbatim>\<open>addTheme\<close> never modify the settings: on every path through
  them, the manager (and with it the enabled modes, scripts and theme it holds) and the
  settings file are the same after the operation as before it.
\<close>

theorem add_keeps_settings:
  "fst (addScript rm w) = rm \<and> configFile (snd (addScript rm w)) = configFile w \<and>
   fst (addTheme rm w) = rm \<and> configFile (snd (addTheme rm w)) = configFile w"
  by (simp add: addScript_def addTheme_def rofiMenu_eq showInfo_eq Let_def
      split: sum.splits option.splits)

end
